theory Spec2Isabelle
  imports Complex_Main "HOL-Library.Word"
begin

section \<open>Data model (src/types.ts)\<close>

text \<open>
  JavaScript numbers are modelled as \<^typ>\<open>real\<close>: the arithmetic below is the ideal
  arithmetic of the source expressions, without the rounding of IEEE doubles. The fit
  transform calculator has a second model, in double arithmetic, further down.
  Record fields carry a prefix, since several interfaces of the source share the
  field names \<open>x\<close>, \<open>y\<close>, \<open>width\<close>, \<open>height\<close> and \<open>id\<close>.
\<close>

datatype MaskType = Rectangle

record MaskGeometry =
  mask_type :: MaskType
  mask_x :: real
  mask_y :: real
  mask_width :: real
  mask_height :: real

record PhotoTransform =
  pt_x :: real
  pt_y :: real
  pt_scale :: real
  pt_rotation :: real

datatype FitMode = Fit | Fill | Center

section \<open>Fit transform calculator (src/utils/imageUtils.ts, calculateFitTransform)\<close>

text \<open>
  The parameter \<open>mode\<close> has the default value \<open>'fill'\<close> in the source; an omitted
  argument is \<open>None\<close> here.
\<close>

definition modeOrDefault :: "FitMode option \<Rightarrow> FitMode" where
  "modeOrDefault mode = (case mode of None \<Rightarrow> Fill | Some m \<Rightarrow> m)"

text \<open>The scale, lines 113 to 128 of the source, named so that it can be referred to.\<close>

definition fitScale :: "real \<Rightarrow> real \<Rightarrow> MaskGeometry \<Rightarrow> FitMode \<Rightarrow> real" where
  "fitScale photoWidth photoHeight msk mode =
     (let maskAspect = mask_width msk / mask_height msk;
          photoAspect = photoWidth / photoHeight
      in if mode = Fit
         then (if photoAspect > maskAspect
               then mask_width msk / photoWidth
               else mask_height msk / photoHeight)
         else (if photoAspect > maskAspect
               then mask_height msk / photoHeight
               else mask_width msk / photoWidth))"

definition calculateFitTransform ::
  "real \<Rightarrow> real \<Rightarrow> MaskGeometry \<Rightarrow> FitMode option \<Rightarrow> PhotoTransform" where
  "calculateFitTransform photoWidth photoHeight msk modeArg =
     (let mode = modeOrDefault modeArg;
          scale = fitScale photoWidth photoHeight msk mode;
          scaledWidth = photoWidth * scale;
          scaledHeight = photoHeight * scale;
          x = mask_x msk + (mask_width msk - scaledWidth) / 2;
          y = (if mode = Center
               then mask_y msk + (mask_height msk - scaledHeight) / 2
               else (let overflow = scaledHeight - mask_height msk
                     in mask_y msk - overflow * 0.2))
      in \<lparr> pt_x = x, pt_y = y, pt_scale = scale, pt_rotation = 0 \<rparr>)"

text \<open>
  The scaled photo dimensions of a transform: the source's
  \<open>scaledWidth = photoWidth * scale\<close> and \<open>scaledHeight = photoHeight * scale\<close>,
  read off the returned scale.
\<close>

definition scaledWidth :: "real \<Rightarrow> PhotoTransform \<Rightarrow> real" where
  "scaledWidth photoWidth t = photoWidth * pt_scale t"

definition scaledHeight :: "real \<Rightarrow> PhotoTransform \<Rightarrow> real" where
  "scaledHeight photoHeight t = photoHeight * pt_scale t"

section \<open>Assets and project state (src/types.ts)\<close>

record FrameAsset =
  frame_id :: string
  frame_name :: string
  frame_imageData :: string
  frame_width :: real
  frame_height :: real
  frame_mask :: "MaskGeometry option"

record PhotoAsset =
  photo_id :: string
  photo_name :: string
  photo_imageData :: string
  photo_width :: real
  photo_height :: real

record TextProperties =
  tp_content :: string
  tp_fontFamily :: string
  tp_fontSize :: real
  tp_color :: string
  tp_x :: real
  tp_y :: real
  tp_outlineColor :: string
  tp_outlineWidth :: real
  tp_shadowEnabled :: bool
  tp_visible :: bool

record CardProject =
  selectedFrameId :: "string option"
  selectedPhotoId :: "string option"
  photoTransform :: PhotoTransform
  textProperties :: TextProperties

definition DEFAULT_PHOTO_TRANSFORM :: PhotoTransform where
  "DEFAULT_PHOTO_TRANSFORM = \<lparr> pt_x = 0, pt_y = 0, pt_scale = 1, pt_rotation = 0 \<rparr>"

definition DEFAULT_TEXT_PROPERTIES :: TextProperties where
  "DEFAULT_TEXT_PROPERTIES =
     \<lparr> tp_content = ''Happy Birthday!'', tp_fontFamily = ''Dancing Script'',
       tp_fontSize = 48, tp_color = ''#FFD700'', tp_x = 540, tp_y = 200,
       tp_outlineColor = ''#8B4513'', tp_outlineWidth = 2,
       tp_shadowEnabled = True, tp_visible = False \<rparr>"

definition CANVAS_WIDTH :: real where
  "CANVAS_WIDTH = 1080"

definition CANVAS_HEIGHT :: real where
  "CANVAS_HEIGHT = 1920"

section \<open>Frame space to canvas space (src/App.tsx)\<close>

text \<open>
  The same three lines compute the scale and the offsets in \<open>handleFrameSelect\<close>,
  \<open>handlePhotoSelect\<close>, \<open>handleMaskSave\<close> and \<open>getCurrentMask\<close>; they are named
  once here, with the names of the source's local constants.
\<close>

definition frameScale :: "FrameAsset \<Rightarrow> real" where
  "frameScale frame = min (CANVAS_WIDTH / frame_width frame) (CANVAS_HEIGHT / frame_height frame)"

definition frameOffsetX :: "FrameAsset \<Rightarrow> real" where
  "frameOffsetX frame = (CANVAS_WIDTH - frame_width frame * frameScale frame) / 2"

definition frameOffsetY :: "FrameAsset \<Rightarrow> real" where
  "frameOffsetY frame = (CANVAS_HEIGHT - frame_height frame * frameScale frame) / 2"

definition scaledMask :: "FrameAsset \<Rightarrow> MaskGeometry \<Rightarrow> MaskGeometry" where
  "scaledMask frame m =
     \<lparr> mask_type = Rectangle,
       mask_x = frameOffsetX frame + mask_x m * frameScale frame,
       mask_y = frameOffsetY frame + mask_y m * frameScale frame,
       mask_width = mask_width m * frameScale frame,
       mask_height = mask_height m * frameScale frame \<rparr>"

text \<open>\<open>getCurrentMask\<close>: the selected frame's mask in canvas coordinates, or \<open>null\<close>.\<close>

definition getCurrentMask :: "FrameAsset option \<Rightarrow> MaskGeometry option" where
  "getCurrentMask selectedFrame =
     (case selectedFrame of
        None \<Rightarrow> None
      | Some frame \<Rightarrow>
          (case frame_mask frame of
             None \<Rightarrow> None
           | Some m \<Rightarrow> Some (scaledMask frame m)))"

text \<open>
  The source has no conversion from canvas space back to frame space. The inverse of
  the specification's round trip, "the inverse of the same scale and offsets", is
  written out here from the specification's words: subtract the offset, divide by the
  scale.
\<close>

definition canvasToFrameMask :: "FrameAsset \<Rightarrow> MaskGeometry \<Rightarrow> MaskGeometry" where
  "canvasToFrameMask frame m =
     \<lparr> mask_type = mask_type m,
       mask_x = (mask_x m - frameOffsetX frame) / frameScale frame,
       mask_y = (mask_y m - frameOffsetY frame) / frameScale frame,
       mask_width = mask_width m / frameScale frame,
       mask_height = mask_height m / frameScale frame \<rparr>"

text \<open>
  \<open>getMaskInCanvas\<close> of src/components/CardComposerCanvas.tsx: the region the renderer
  clips the photo to. Without a frame mask it is the default centred region of the
  canvas. The source's object literal has the four numeric fields only; the tag
  \<open>Rectangle\<close> is the only value the field can take.
\<close>

definition getMaskInCanvas :: "FrameAsset option \<Rightarrow> MaskGeometry" where
  "getMaskInCanvas frame =
     (case (case frame of None \<Rightarrow> None
                        | Some f \<Rightarrow> map_option (scaledMask f) (frame_mask f)) of
        None \<Rightarrow>
          \<lparr> mask_type = Rectangle,
            mask_x = CANVAS_WIDTH * 0.15, mask_y = CANVAS_HEIGHT * 0.15,
            mask_width = CANVAS_WIDTH * 0.7, mask_height = CANVAS_HEIGHT * 0.5 \<rparr>
      | Some m \<Rightarrow> m)"

section \<open>Selecting a frame (src/App.tsx, handleFrameSelect)\<close>

text \<open>
  The state updater passed to \<open>setProject\<close>, as a function of the frame and photo
  collections, the selected id and the previous project. \<open>Array.find\<close> returns the
  first element that satisfies the predicate, as \<^const>\<open>List.find\<close> does.
\<close>

definition handleFrameSelect ::
  "FrameAsset list \<Rightarrow> PhotoAsset list \<Rightarrow> string \<Rightarrow> CardProject \<Rightarrow> CardProject" where
  "handleFrameSelect frames photos frameId prev =
     (let frame = List.find (\<lambda>f. frame_id f = frameId) frames;
          photo = List.find (\<lambda>p. Some (photo_id p) = selectedPhotoId prev) photos;
          newTransform =
            (case (frame, photo) of
               (Some f, Some p) \<Rightarrow>
                 (case frame_mask f of
                    Some m \<Rightarrow>
                      calculateFitTransform (photo_width p) (photo_height p)
                        (scaledMask f m) (Some Fill)
                  | None \<Rightarrow> photoTransform prev)
             | _ \<Rightarrow> photoTransform prev)
      in prev \<lparr> selectedFrameId := Some frameId, photoTransform := newTransform \<rparr>)"

section \<open>Saved cards (src/App.tsx, handleSaveCard)\<close>

record SavedCard =
  card_id :: string
  card_timestamp :: string
  card_imageData :: string
  card_frameId :: "string option"
  card_photoId :: "string option"

text \<open>
  What the store holds under the key \<open>caissa-saved-cards\<close>: nothing, a text that
  \<open>JSON.parse\<close> rejects or that is not an array (every use of it throws inside the
  \<open>try\<close> block), or an array of cards.
\<close>

datatype SavedCardsEntry = Absent | Corrupt | Cards "SavedCard list"

text \<open>
  Lines 278 to 280: \<open>unshift\<close> puts the new card in front, \<open>pop\<close> removes the last
  element when the array has more than 20.
\<close>

definition pushSavedCard :: "SavedCard \<Rightarrow> SavedCard list \<Rightarrow> SavedCard list" where
  "pushSavedCard newCard savedCards =
     (let cards = newCard # savedCards
      in if length cards > 20 then butlast cards else cards)"

text \<open>
  The handler as a function of the environment: whether the stage exists, the
  selected frame, the result of \<open>stage.toDataURL\<close> (\<open>None\<close> when it throws), the
  clock readings that make the card's id and timestamp, whether the store accepts
  the write (\<open>setItem\<close> throws when the quota is exceeded), the project and the
  stored entry. The result is the stored entry afterwards. Every exception of the
  \<open>try\<close> block is caught and leaves the entry as it was.
\<close>

definition handleSaveCard ::
  "bool \<Rightarrow> FrameAsset option \<Rightarrow> string option \<Rightarrow> string \<Rightarrow> string \<Rightarrow> bool
     \<Rightarrow> CardProject \<Rightarrow> SavedCardsEntry \<Rightarrow> SavedCardsEntry" where
  "handleSaveCard stageMounted selectedFrame dataUrl cardId isoTime writeAccepted project entry =
     (if \<not> stageMounted \<or> selectedFrame = None then entry
      else
        (case dataUrl of
           None \<Rightarrow> entry
         | Some url \<Rightarrow>
             (case (case entry of Absent \<Rightarrow> Some []
                               | Corrupt \<Rightarrow> None
                               | Cards cs \<Rightarrow> Some cs) of
                None \<Rightarrow> entry
              | Some savedCards \<Rightarrow>
                  (let newCard = \<lparr> card_id = cardId, card_timestamp = isoTime,
                                    card_imageData = url,
                                    card_frameId = selectedFrameId project,
                                    card_photoId = selectedPhotoId project \<rparr>
                   in if writeAccepted then Cards (pushSavedCard newCard savedCards)
                      else entry))))"

text \<open>The stored list as the handler reads it: an absent key reads as the empty array.\<close>

definition storedCards :: "SavedCardsEntry \<Rightarrow> SavedCard list" where
  "storedCards entry = (case entry of Cards cs \<Rightarrow> cs | _ \<Rightarrow> [])"

section \<open>Persistence reads (src/utils/storage.ts)\<close>

datatype exn = StorageException | JSONSyntaxError

definition STORAGE_KEYS_FRAMES :: string where
  "STORAGE_KEYS_FRAMES = ''birthday-card-frames''"

definition STORAGE_KEYS_PHOTOS :: string where
  "STORAGE_KEYS_PHOTOS = ''birthday-card-photos''"

definition STORAGE_KEYS_PROJECT :: string where
  "STORAGE_KEYS_PROJECT = ''birthday-card-project''"

text \<open>
  The environment is a parameter: \<open>getItem\<close> is \<open>localStorage.getItem\<close>, which returns
  the text under a key, \<open>null\<close> (here \<open>None\<close>) or throws; \<open>parseJSON\<close> is \<open>JSON.parse\<close>
  at the type the caller casts its result to, which returns a value or throws. A
  thrown exception is \<open>Inl\<close>. The test \<open>data ? ... : ...\<close> is false for \<open>null\<close> and for
  the empty text.
\<close>

definition loadFrames ::
  "(string \<Rightarrow> exn + string option) \<Rightarrow> (string \<Rightarrow> exn + FrameAsset list)
     \<Rightarrow> exn + FrameAsset list" where
  "loadFrames getItem parseJSON =
     (case (case getItem STORAGE_KEYS_FRAMES of
              Inl e \<Rightarrow> Inl e
            | Inr data \<Rightarrow>
                (case data of
                   None \<Rightarrow> Inr []
                 | Some s \<Rightarrow> if s \<noteq> [] then parseJSON s else Inr [])) of
        Inl e \<Rightarrow> Inr []
      | Inr v \<Rightarrow> Inr v)"

definition loadPhotos ::
  "(string \<Rightarrow> exn + string option) \<Rightarrow> (string \<Rightarrow> exn + PhotoAsset list)
     \<Rightarrow> exn + PhotoAsset list" where
  "loadPhotos getItem parseJSON =
     (case (case getItem STORAGE_KEYS_PHOTOS of
              Inl e \<Rightarrow> Inl e
            | Inr data \<Rightarrow>
                (case data of
                   None \<Rightarrow> Inr []
                 | Some s \<Rightarrow> if s \<noteq> [] then parseJSON s else Inr [])) of
        Inl e \<Rightarrow> Inr []
      | Inr v \<Rightarrow> Inr v)"

text \<open>
  \<open>loadProject\<close> returns from inside the \<open>try\<close> block when there is a text and it
  parses (\<open>Some\<close> below); otherwise control reaches the default project after the
  block, also after a caught exception.
\<close>

definition loadProject ::
  "(string \<Rightarrow> exn + string option) \<Rightarrow> (string \<Rightarrow> exn + CardProject)
     \<Rightarrow> exn + CardProject" where
  "loadProject getItem parseJSON =
     (case (case getItem STORAGE_KEYS_PROJECT of
              Inl e \<Rightarrow> Inl e
            | Inr data \<Rightarrow>
                (case data of
                   None \<Rightarrow> Inr None
                 | Some s \<Rightarrow> if s \<noteq> [] then map_sum id Some (parseJSON s) else Inr None)) of
        Inr (Some project) \<Rightarrow> Inr project
      | _ \<Rightarrow>
          Inr \<lparr> selectedFrameId = None, selectedPhotoId = None,
                photoTransform = DEFAULT_PHOTO_TRANSFORM,
                textProperties = DEFAULT_TEXT_PROPERTIES \<rparr>)"

text \<open>
  A read fails or finds no stored value: \<open>getItem\<close> throws, or returns \<open>null\<close> or the
  empty text, or the text it returns does not parse.
\<close>

definition readYieldsNothing ::
  "(string \<Rightarrow> exn + string option) \<Rightarrow> (string \<Rightarrow> exn + 'a) \<Rightarrow> string \<Rightarrow> bool" where
  "readYieldsNothing getItem parseJSON key =
     (case getItem key of
        Inl e \<Rightarrow> True
      | Inr None \<Rightarrow> True
      | Inr (Some s) \<Rightarrow> s = [] \<or> isl (parseJSON s))"

section \<open>Mask auto-detection (src/utils/imageUtils.ts, detectTransparentRegion)\<close>

text \<open>
  The pixel buffer that \<open>getImageData\<close> returns for the decoded frame image: the
  canvas dimensions and the bytes (red, green, blue, alpha for each pixel, row by
  row) of a \<open>Uint8ClampedArray\<close>. A read past the end of the array is \<open>undefined\<close>
  in the source, here \<open>None\<close>, and every comparison with \<open>undefined\<close> is false.
\<close>

record ImageData =
  img_width :: nat
  img_height :: nat
  img_data :: "8 word list"

definition byteAt :: "8 word list \<Rightarrow> nat \<Rightarrow> 8 word option" where
  "byteAt pixels i = (if i < length pixels then Some (pixels ! i) else None)"

definition lessThanByte :: "8 word option \<Rightarrow> 8 word \<Rightarrow> bool" where
  "lessThanByte v c = (case v of None \<Rightarrow> False | Some b \<Rightarrow> b < c)"

definition greaterThanByte :: "8 word option \<Rightarrow> 8 word \<Rightarrow> bool" where
  "greaterThanByte v c = (case v of None \<Rightarrow> False | Some b \<Rightarrow> b > c)"

text \<open>The test of line 64: transparent, or nearly white and nearly opaque.\<close>

definition isWindowPixel :: "ImageData \<Rightarrow> nat \<Rightarrow> nat \<Rightarrow> bool" where
  "isWindowPixel img x y =
     (let pixels = img_data img;
          idx = (y * img_width img + x) * 4;
          alpha = byteAt pixels (idx + 3)
      in lessThanByte alpha 10
         \<or> (greaterThanByte (byteAt pixels idx) 240
            \<and> greaterThanByte (byteAt pixels (idx + 1)) 240
            \<and> greaterThanByte (byteAt pixels (idx + 2)) 240
            \<and> greaterThanByte alpha 200))"

text \<open>The five variables that the scan updates.\<close>

record BoundingBox =
  minX :: nat
  minY :: nat
  maxX :: nat
  maxY :: nat
  foundTransparent :: bool

definition growBox :: "nat \<times> nat \<Rightarrow> BoundingBox \<Rightarrow> BoundingBox" where
  "growBox p bb =
     \<lparr> minX = min (minX bb) (fst p), minY = min (minY bb) (snd p),
       maxX = max (maxX bb) (fst p), maxY = max (maxY bb) (snd p),
       foundTransparent = True \<rparr>"

definition scanPixel :: "ImageData \<Rightarrow> nat \<Rightarrow> nat \<Rightarrow> BoundingBox \<Rightarrow> BoundingBox" where
  "scanPixel img x y bb = (if isWindowPixel img x y then growBox (x, y) bb else bb)"

text \<open>The inner loop, \<open>for (let x = ...; x < canvas.width; x++)\<close>, from column \<open>x\<close> on.\<close>

function scanRow :: "ImageData \<Rightarrow> nat \<Rightarrow> nat \<Rightarrow> BoundingBox \<Rightarrow> BoundingBox" where
  "scanRow img y x bb =
     (if x < img_width img then scanRow img y (x + 1) (scanPixel img x y bb) else bb)"
  by pat_completeness auto
termination
  by (relation "measure (\<lambda>(img, y, x, bb). img_width img - x)") auto

text \<open>The outer loop, \<open>for (let y = ...; y < canvas.height; y++)\<close>, from row \<open>y\<close> on.\<close>

function scanRows :: "ImageData \<Rightarrow> nat \<Rightarrow> BoundingBox \<Rightarrow> BoundingBox" where
  "scanRows img y bb =
     (if y < img_height img then scanRows img (y + 1) (scanRow img y 0 bb) else bb)"
  by pat_completeness auto
termination
  by (relation "measure (\<lambda>(img, y, bb). img_height img - y)") auto

declare scanRow.simps [simp del] scanRows.simps [simp del]

definition scanImage :: "ImageData \<Rightarrow> BoundingBox" where
  "scanImage img =
     scanRows img 0
       \<lparr> minX = img_width img, minY = img_height img, maxX = 0, maxY = 0,
         foundTransparent = False \<rparr>"

definition fallbackMask :: "ImageData \<Rightarrow> MaskGeometry" where
  "fallbackMask img =
     (let centerX = real (img_width img) * 0.15;
          centerY = real (img_height img) * 0.15;
          width = real (img_width img) * 0.7;
          height = real (img_height img) * 0.5
      in \<lparr> mask_type = Rectangle, mask_x = centerX, mask_y = centerY,
           mask_width = width, mask_height = height \<rparr>)"

text \<open>The body of \<open>img.onload\<close> from the scan on (lines 50 to 99).\<close>

definition detectInPixels :: "ImageData \<Rightarrow> MaskGeometry" where
  "detectInPixels img =
     (let bb = scanImage img
      in if \<not> foundTransparent bb
            \<or> real (maxX bb) - real (minX bb) < 50
            \<or> real (maxY bb) - real (minY bb) < 50
         then fallbackMask img
         else
           (let padding = 5
            in \<lparr> mask_type = Rectangle,
                 mask_x = max 0 (real (minX bb) - padding),
                 mask_y = max 0 (real (minY bb) - padding),
                 mask_width = min (real (img_width img) - real (minX bb) + padding * 2)
                                  (real (maxX bb) - real (minX bb) + padding * 2),
                 mask_height = min (real (img_height img) - real (minY bb) + padding * 2)
                                   (real (maxY bb) - real (minY bb) + padding * 2) \<rparr>))"

text \<open>
  The promise's value as a function of what the browser delivers: the image fails to
  load (\<open>img.onerror\<close>), the canvas gives no 2D context, or the pixels are read.
\<close>

datatype ImageLoad = ImageError | ContextUnavailable | Pixels ImageData

definition detectTransparentRegion :: "ImageLoad \<Rightarrow> MaskGeometry option" where
  "detectTransparentRegion load =
     (case load of
        ImageError \<Rightarrow> None
      | ContextUnavailable \<Rightarrow> None
      | Pixels img \<Rightarrow> Some (detectInPixels img))"

text \<open>
  The window pixels of an image, in scan order: the coordinates \<open>(x, y)\<close> inside the
  image that pass the test of line 64. The claims about the detected bounding box are
  stated over this list.
\<close>

definition windowPixels :: "ImageData \<Rightarrow> (nat \<times> nat) list" where
  "windowPixels img =
     concat (map (\<lambda>y. map (\<lambda>x. (x, y))
                         (filter (\<lambda>x. isWindowPixel img x y) [0..<img_width img]))
                 [0..<img_height img])"

text \<open>
  The example image of the specification's testable property: 400 by 400 pixels,
  opaque mid-grey, with a fully transparent square of 200 by 200 pixels whose top left
  corner is at (100, 100). Pixel number \<open>i\<close> of the buffer is at column \<open>i mod 400\<close> of
  row \<open>i div 400\<close>.
\<close>

definition squareHolePixel :: "nat \<Rightarrow> 8 word list" where
  "squareHolePixel i =
     (if 100 \<le> i mod 400 \<and> i mod 400 < 300 \<and> 100 \<le> i div 400 \<and> i div 400 < 300
      then [0, 0, 0, 0] else [128, 128, 128, 255])"

definition squareHoleImage :: ImageData where
  "squareHoleImage =
     \<lparr> img_width = 400, img_height = 400,
       img_data = concat (map squareHolePixel [0..<160000]) \<rparr>"

section \<open>The fit transform calculator in double arithmetic\<close>

text \<open>
  A second model of \<open>calculateFitTransform\<close>, with the numbers of the program. A
  finite JavaScript number is an IEEE 754 double: an integer significand \<open>m\<close> with
  \<open>\<bar>m\<bar> < 2 ^ 53\<close> and an exponent \<open>e\<close> with \<open>- 1074 \<le> e \<le> 971\<close>, standing for the
  number \<open>m * 2 ^ e\<close>. Every arithmetic operation returns the exact result rounded
  to the nearest double, a tie going to the even significand. A result that is not a
  finite number (an overflow to \<open>Infinity\<close>, a division by zero) is \<open>None\<close>: the
  model follows a computation as long as its values are finite.
\<close>

datatype Double = Double (significand: int) (exponent: int)

text \<open>The number that a double stands for.\<close>

definition valueOf :: "Double \<Rightarrow> rat" where
  "valueOf a = of_int (significand a) * 2 powi exponent a"

text \<open>The comparison \<open>a < b\<close> of two doubles, on integers: both brought to the smaller exponent.\<close>

definition lessDouble :: "Double \<Rightarrow> Double \<Rightarrow> bool" where
  "lessDouble a b =
     (let e = min (exponent a) (exponent b)
      in significand a * 2 ^ nat (exponent a - e) < significand b * 2 ^ nat (exponent b - e))"

text \<open>The number of binary digits of a positive integer.\<close>

function bitLength :: "int \<Rightarrow> int" where
  "bitLength n = (if n \<le> 0 then 0 else 1 + bitLength (n div 2))"
  by pat_completeness auto
termination
  by (relation "measure nat") auto

declare bitLength.simps [simp del]

text \<open>
  \<open>floorLog2 a d\<close> is the integer \<open>k\<close> with \<open>2 ^ k \<le> a / d < 2 ^ (k + 1)\<close>, for positive
  \<open>a\<close> and \<open>d\<close>: the difference of the bit lengths, or one less.
\<close>

definition floorLog2 :: "int \<Rightarrow> int \<Rightarrow> int" where
  "floorLog2 a d =
     (let k = bitLength a - bitLength d
      in if (if 0 \<le> k then d * 2 ^ nat k \<le> a else d \<le> a * 2 ^ nat (- k))
         then k else k - 1)"

text \<open>The integer nearest to \<open>n / d\<close>, for \<open>0 \<le> n\<close> and \<open>0 < d\<close>; a tie goes to the even one.\<close>

definition roundHalfEven :: "int \<Rightarrow> int \<Rightarrow> int" where
  "roundHalfEven n d =
     (let q = n div d; r = n mod d
      in if 2 * r < d then q
         else if d < 2 * r then q + 1
         else if even q then q else q + 1)"

text \<open>
  Rounding the exact result \<open>n / d * 2 ^ k\<close> (with \<open>0 < d\<close>) to a double. The
  significand has 53 bits, so the exponent of the result is the exponent of the
  leading bit minus 52, and at least \<open>- 1074\<close> (subnormal numbers); the significand is
  the exact result divided by \<open>2 ^ e\<close>, rounded. A rounded magnitude of \<open>2 ^ 1024\<close> or
  more is \<open>Infinity\<close>.
\<close>

definition roundToDouble :: "int \<Rightarrow> int \<Rightarrow> int \<Rightarrow> Double option" where
  "roundToDouble n d k =
     (if n = 0 then Some (Double 0 0)
      else
        (let a = \<bar>n\<bar>;
             e = max (floorLog2 a d + k - 52) (- 1074);
             m = (if 0 \<le> k - e then roundHalfEven (a * 2 ^ nat (k - e)) d
                  else roundHalfEven a (d * 2 ^ nat (e - k)))
         in if 1024 < bitLength m + e then None
            else Some (Double (if n < 0 then - m else m) e)))"

definition addDouble :: "Double \<Rightarrow> Double \<Rightarrow> Double option" where
  "addDouble a b =
     (let e = min (exponent a) (exponent b)
      in roundToDouble
           (significand a * 2 ^ nat (exponent a - e) + significand b * 2 ^ nat (exponent b - e))
           1 e)"

definition subDouble :: "Double \<Rightarrow> Double \<Rightarrow> Double option" where
  "subDouble a b =
     (let e = min (exponent a) (exponent b)
      in roundToDouble
           (significand a * 2 ^ nat (exponent a - e) - significand b * 2 ^ nat (exponent b - e))
           1 e)"

definition mulDouble :: "Double \<Rightarrow> Double \<Rightarrow> Double option" where
  "mulDouble a b = roundToDouble (significand a * significand b) 1 (exponent a + exponent b)"

definition divDouble :: "Double \<Rightarrow> Double \<Rightarrow> Double option" where
  "divDouble a b =
     (if significand b = 0 then None
      else roundToDouble (sgn (significand b) * significand a) \<bar>significand b\<bar>
             (exponent a - exponent b))"

record DoubleMask =
  dmask_x :: Double
  dmask_y :: Double
  dmask_width :: Double
  dmask_height :: Double

record DoubleTransform =
  dpt_x :: Double
  dpt_y :: Double
  dpt_scale :: Double
  dpt_rotation :: Double

text \<open>
  The source, operation by operation, in the order of evaluation. The literal \<open>0.2\<close>
  is the double nearest to two tenths; \<open>2\<close> and \<open>0\<close> are doubles.
\<close>

definition calculateFitTransform_double ::
  "Double \<Rightarrow> Double \<Rightarrow> DoubleMask \<Rightarrow> FitMode option \<Rightarrow> DoubleTransform option" where
  "calculateFitTransform_double photoWidth photoHeight msk modeArg =
     (let mode = modeOrDefault modeArg in
      Option.bind (divDouble (dmask_width msk) (dmask_height msk)) (\<lambda>maskAspect.
      Option.bind (divDouble photoWidth photoHeight) (\<lambda>photoAspect.
      Option.bind
        (if mode = Fit
         then (if lessDouble maskAspect photoAspect
               then divDouble (dmask_width msk) photoWidth
               else divDouble (dmask_height msk) photoHeight)
         else (if lessDouble maskAspect photoAspect
               then divDouble (dmask_height msk) photoHeight
               else divDouble (dmask_width msk) photoWidth)) (\<lambda>scale.
      Option.bind (mulDouble photoWidth scale) (\<lambda>scaledWidth.
      Option.bind (mulDouble photoHeight scale) (\<lambda>scaledHeight.
      Option.bind (subDouble (dmask_width msk) scaledWidth) (\<lambda>freeWidth.
      Option.bind (divDouble freeWidth (Double 2 0)) (\<lambda>halfFreeWidth.
      Option.bind (addDouble (dmask_x msk) halfFreeWidth) (\<lambda>x.
      Option.bind
        (if mode = Center
         then Option.bind (subDouble (dmask_height msk) scaledHeight) (\<lambda>freeHeight.
              Option.bind (divDouble freeHeight (Double 2 0)) (\<lambda>halfFreeHeight.
              addDouble (dmask_y msk) halfFreeHeight))
         else Option.bind (subDouble scaledHeight (dmask_height msk)) (\<lambda>overflow.
              Option.bind (roundToDouble 2 10 0) (\<lambda>fifth.
              Option.bind (mulDouble overflow fifth) (\<lambda>bias.
              subDouble (dmask_y msk) bias)))) (\<lambda>y.
      Some \<lparr> dpt_x = x, dpt_y = y, dpt_scale = scale, dpt_rotation = Double 0 0 \<rparr>))))))))))"

section \<open>Properties of the fit transform calculator\<close>

lemma aspect_gtD:
  fixes pw ph mw mh :: real
  shows "0 < ph \<Longrightarrow> 0 < mh \<Longrightarrow> mw / mh < pw / ph \<Longrightarrow> mw * ph < pw * mh"
  by (simp add: field_simps)

lemma aspect_not_gtD:
  fixes pw ph mw mh :: real
  shows "0 < ph \<Longrightarrow> 0 < mh \<Longrightarrow> \<not> mw / mh < pw / ph \<Longrightarrow> pw * mh \<le> mw * ph"
  by (simp add: field_simps)

lemma fit_scale_bounds:
  fixes pw ph :: real
  assumes "0 < pw" "0 < ph" "0 < mask_width m" "0 < mask_height m"
  shows "pw * fitScale pw ph m Fit \<le> mask_width m"
    and "ph * fitScale pw ph m Fit \<le> mask_height m"
proof -
  let ?mw = "mask_width m" and ?mh = "mask_height m"
  show "pw * fitScale pw ph m Fit \<le> ?mw"
  proof (cases "pw / ph > ?mw / ?mh")
    case True
    then show ?thesis using assms by (simp add: fitScale_def)
  next
    case False
    then have "pw * ?mh \<le> ?mw * ph"
      using assms by (intro aspect_not_gtD) simp_all
    then have "pw * ?mh / ph \<le> ?mw"
      using assms by (simp add: field_simps)
    with False show ?thesis by (simp add: fitScale_def)
  qed
  show "ph * fitScale pw ph m Fit \<le> ?mh"
  proof (cases "pw / ph > ?mw / ?mh")
    case True
    then have "?mw * ph < pw * ?mh"
      using assms by (intro aspect_gtD) simp_all
    then have "ph * ?mw / pw \<le> ?mh"
      using assms by (simp add: field_simps)
    with True show ?thesis by (simp add: fitScale_def)
  next
    case False
    then show ?thesis using assms by (simp add: fitScale_def)
  qed
qed

lemma fill_scale_bounds:
  fixes pw ph :: real
  assumes "0 < pw" "0 < ph" "0 < mask_width m" "0 < mask_height m"
  shows "mask_width m \<le> pw * fitScale pw ph m Fill"
    and "mask_height m \<le> ph * fitScale pw ph m Fill"
proof -
  let ?mw = "mask_width m" and ?mh = "mask_height m"
  show "?mw \<le> pw * fitScale pw ph m Fill"
  proof (cases "pw / ph > ?mw / ?mh")
    case True
    then have "?mw * ph < pw * ?mh"
      using assms by (intro aspect_gtD) simp_all
    then have "?mw \<le> pw * ?mh / ph"
      using assms by (simp add: field_simps)
    with True show ?thesis by (simp add: fitScale_def)
  next
    case False
    then show ?thesis using assms by (simp add: fitScale_def)
  qed
  show "?mh \<le> ph * fitScale pw ph m Fill"
  proof (cases "pw / ph > ?mw / ?mh")
    case True
    then show ?thesis using assms by (simp add: fitScale_def)
  next
    case False
    then have "pw * ?mh \<le> ?mw * ph"
      using assms by (intro aspect_not_gtD) simp_all
    then have "?mh \<le> ph * ?mw / pw"
      using assms by (simp add: field_simps)
    with False show ?thesis by (simp add: fitScale_def)
  qed
qed

lemma calc_scale:
  "pt_scale (calculateFitTransform pw ph m mode) = fitScale pw ph m (modeOrDefault mode)"
  by (simp add: calculateFitTransform_def Let_def)

text \<open>
  Claim C1. For a photo and a mask with strictly positive widths and heights, the
  transform of mode \<open>fit\<close> scales the photo to at most the mask's width and at most
  the mask's height: the entire photo is contained in the mask.
\<close>

theorem fit_contained:
  assumes "0 < photoWidth" "0 < photoHeight" "0 < mask_width msk" "0 < mask_height msk"
  shows "scaledWidth photoWidth (calculateFitTransform photoWidth photoHeight msk (Some Fit))
           \<le> mask_width msk
       \<and> scaledHeight photoHeight (calculateFitTransform photoWidth photoHeight msk (Some Fit))
           \<le> mask_height msk"
  using fit_scale_bounds [OF assms]
  by (simp add: scaledWidth_def scaledHeight_def calc_scale modeOrDefault_def)

theorem fit_contained_witness:
  "0 < (4::real) \<and> 0 < (3::real)
   \<and> 0 < mask_width \<lparr>mask_type = Rectangle, mask_x = 10, mask_y = 20,
                       mask_width = 2, mask_height = 2\<rparr>
   \<and> 0 < mask_height \<lparr>mask_type = Rectangle, mask_x = 10, mask_y = 20,
                        mask_width = 2, mask_height = 2\<rparr>
   \<and> scaledWidth 4 (calculateFitTransform 4 3
         \<lparr>mask_type = Rectangle, mask_x = 10, mask_y = 20, mask_width = 2, mask_height = 2\<rparr>
         (Some Fit)) \<le> 2
   \<and> scaledHeight 3 (calculateFitTransform 4 3
         \<lparr>mask_type = Rectangle, mask_x = 10, mask_y = 20, mask_width = 2, mask_height = 2\<rparr>
         (Some Fit)) \<le> 2"
  using fit_contained [of 4 3
      "\<lparr>mask_type = Rectangle, mask_x = 10, mask_y = 20, mask_width = 2, mask_height = 2\<rparr>"]
  by simp

text \<open>
  Claim C2. For a photo and a mask with strictly positive widths and heights, the
  transform of mode \<open>fill\<close>, which is also the mode of a call that omits the
  argument, scales the photo to at least the mask's width and at least the mask's
  height: the mask is fully covered.
\<close>

theorem fill_covers:
  assumes "0 < photoWidth" "0 < photoHeight" "0 < mask_width msk" "0 < mask_height msk"
  shows "mask_width msk
           \<le> scaledWidth photoWidth
                (calculateFitTransform photoWidth photoHeight msk (Some Fill))
       \<and> mask_height msk
           \<le> scaledHeight photoHeight
                (calculateFitTransform photoWidth photoHeight msk (Some Fill))
       \<and> mask_width msk
           \<le> scaledWidth photoWidth (calculateFitTransform photoWidth photoHeight msk None)
       \<and> mask_height msk
           \<le> scaledHeight photoHeight (calculateFitTransform photoWidth photoHeight msk None)"
  using fill_scale_bounds [OF assms]
  by (simp add: scaledWidth_def scaledHeight_def calc_scale modeOrDefault_def)

theorem fill_covers_witness:
  "0 < (4::real) \<and> 0 < (3::real)
   \<and> 0 < mask_width \<lparr>mask_type = Rectangle, mask_x = 10, mask_y = 20,
                       mask_width = 2, mask_height = 2\<rparr>
   \<and> 0 < mask_height \<lparr>mask_type = Rectangle, mask_x = 10, mask_y = 20,
                        mask_width = 2, mask_height = 2\<rparr>
   \<and> 2 \<le> scaledWidth 4 (calculateFitTransform 4 3
         \<lparr>mask_type = Rectangle, mask_x = 10, mask_y = 20, mask_width = 2, mask_height = 2\<rparr>
         (Some Fill))
   \<and> 2 \<le> scaledHeight 3 (calculateFitTransform 4 3
         \<lparr>mask_type = Rectangle, mask_x = 10, mask_y = 20, mask_width = 2, mask_height = 2\<rparr>
         (Some Fill))
   \<and> 2 \<le> scaledWidth 4 (calculateFitTransform 4 3
         \<lparr>mask_type = Rectangle, mask_x = 10, mask_y = 20, mask_width = 2, mask_height = 2\<rparr>
         None)
   \<and> 2 \<le> scaledHeight 3 (calculateFitTransform 4 3
         \<lparr>mask_type = Rectangle, mask_x = 10, mask_y = 20, mask_width = 2, mask_height = 2\<rparr>
         None)"
  using fill_covers [of 4 3
      "\<lparr>mask_type = Rectangle, mask_x = 10, mask_y = 20, mask_width = 2, mask_height = 2\<rparr>"]
  by simp

text \<open>
  Claim C3. In every mode the returned \<open>x\<close> centres the scaled photo horizontally
  in the mask, \<open>x = mask.x + (mask.width - scaledWidth) / 2\<close>. In mode \<open>center\<close> the
  returned \<open>y\<close> is \<open>mask.y + (mask.height - scaledHeight) / 2\<close>; in the modes \<open>fit\<close>
  and \<open>fill\<close> it is \<open>mask.y - (scaledHeight - mask.height) * 0.2\<close>. The equations
  hold for all arguments, in particular for positive dimensions.
\<close>

theorem transform_position:
  "pt_x (calculateFitTransform photoWidth photoHeight msk modeArg)
     = mask_x msk + (mask_width msk
         - scaledWidth photoWidth (calculateFitTransform photoWidth photoHeight msk modeArg)) / 2
   \<and> pt_y (calculateFitTransform photoWidth photoHeight msk (Some Center))
     = mask_y msk + (mask_height msk
         - scaledHeight photoHeight
             (calculateFitTransform photoWidth photoHeight msk (Some Center))) / 2
   \<and> pt_y (calculateFitTransform photoWidth photoHeight msk (Some Fit))
     = mask_y msk
         - (scaledHeight photoHeight (calculateFitTransform photoWidth photoHeight msk (Some Fit))
              - mask_height msk) * 0.2
   \<and> pt_y (calculateFitTransform photoWidth photoHeight msk (Some Fill))
     = mask_y msk
         - (scaledHeight photoHeight (calculateFitTransform photoWidth photoHeight msk (Some Fill))
              - mask_height msk) * 0.2"
  by (simp add: calculateFitTransform_def scaledWidth_def scaledHeight_def modeOrDefault_def
      Let_def)

section \<open>The fit transform calculator in double arithmetic: a photo above the mask\<close>

lemma valueOf_shift:
  assumes "e \<le> exponent a"
  shows "valueOf a = of_int (significand a * 2 ^ nat (exponent a - e)) * 2 powi e"
proof -
  have "(2::rat) powi exponent a = 2 powi (exponent a - e) * 2 powi e"
    by (simp flip: power_int_add)
  moreover have "(2::rat) powi (exponent a - e) = 2 ^ nat (exponent a - e)"
    using assms by (simp add: power_int_def)
  ultimately show ?thesis by (simp add: valueOf_def)
qed

lemma lessDouble_valueOf:
  "lessDouble a b \<longleftrightarrow> valueOf a < valueOf b"
proof -
  let ?e = "min (exponent a) (exponent b)"
  let ?x = "significand a * 2 ^ nat (exponent a - ?e)"
  let ?y = "significand b * 2 ^ nat (exponent b - ?e)"
  have pos: "(0::rat) < 2 powi ?e" by (simp add: zero_less_power_int)
  have "valueOf a < valueOf b \<longleftrightarrow> rat_of_int ?x < rat_of_int ?y"
    using pos
    by (simp only: valueOf_shift [of ?e a] valueOf_shift [of ?e b] min.cobounded1
        min.cobounded2 mult_less_cancel_right_pos)
  also have "\<dots> \<longleftrightarrow> ?x < ?y"
    by (rule of_int_less_iff)
  finally show ?thesis
    by (simp only: lessDouble_def Let_def)
qed

text \<open>
  Claim C10, as stated, fails in the program's arithmetic. For a photo of 1 by 7 and
  a mask of 5 by 29 at the origin, mode \<open>fit\<close> takes the scale \<open>29 / 7\<close>, rounded to a
  double; \<open>7 * scale\<close> rounds to \<open>29 + 2 ^ - 48\<close>, above the mask's height, so the
  overflow is positive and the returned \<open>y\<close> is \<open>- 7205759403792794 * 2 ^ - 103\<close>
  (about \<open>- 7.1e-16\<close>), less than \<open>mask.y = 0\<close>: the photo's top edge is above the
  mask's top edge.
\<close>

theorem fit_above_mask_in_doubles_counterexample:
  "calculateFitTransform_double (Double 1 0) (Double 7 0)
     \<lparr>dmask_x = Double 0 0, dmask_y = Double 0 0,
      dmask_width = Double 5 0, dmask_height = Double 29 0\<rparr> (Some Fit)
   = Some \<lparr>dpt_x = Double 7720456504063704 (- 54),
            dpt_y = Double (- 7205759403792794) (- 103),
            dpt_scale = Double 4664442471205157 (- 50),
            dpt_rotation = Double 0 0\<rparr>
   \<and> lessDouble (Double (- 7205759403792794) (- 103)) (Double 0 0)"
  by code_simp

section \<open>The fit transform calculator in exact arithmetic: the photo inside the mask\<close>

text \<open>
  Claim C10, amended. For a photo and a mask with strictly positive dimensions, the
  transform of mode \<open>fit\<close> places the scaled photo rectangle inside the mask
  rectangle on both axes up to floating-point tolerance: the four inequalities hold
  for the exact values of the source's expressions. There the overflow is not
  positive, and the vertical bias moves the photo down from the mask's top edge by a
  fifth of the free height, so neither above the top edge nor below the bottom edge.
\<close>

theorem fit_inside_mask:
  assumes "0 < photoWidth" "0 < photoHeight" "0 < mask_width msk" "0 < mask_height msk"
    and "t = calculateFitTransform photoWidth photoHeight msk (Some Fit)"
  shows "mask_x msk \<le> pt_x t
       \<and> pt_x t + scaledWidth photoWidth t \<le> mask_x msk + mask_width msk
       \<and> mask_y msk \<le> pt_y t
       \<and> pt_y t + scaledHeight photoHeight t \<le> mask_y msk + mask_height msk"
proof -
  let ?s = "fitScale photoWidth photoHeight msk Fit"
  have w: "photoWidth * ?s \<le> mask_width msk" and h: "photoHeight * ?s \<le> mask_height msk"
    using fit_scale_bounds [OF assms(1-4)] by simp_all
  have tx: "pt_x t = mask_x msk + (mask_width msk - photoWidth * ?s) / 2"
    and ty: "pt_y t = mask_y msk - (photoHeight * ?s - mask_height msk) * 0.2"
    and ts: "pt_scale t = ?s"
    using assms(5) by (simp_all add: calculateFitTransform_def modeOrDefault_def Let_def)
  have "mask_x msk \<le> pt_x t" using w tx by simp
  moreover have "pt_x t + scaledWidth photoWidth t \<le> mask_x msk + mask_width msk"
    using w tx ts by (simp add: scaledWidth_def field_simps)
  moreover have "mask_y msk \<le> pt_y t" using h ty by simp
  moreover have "pt_y t + scaledHeight photoHeight t \<le> mask_y msk + mask_height msk"
    using h ty ts by (simp add: scaledHeight_def field_simps)
  ultimately show ?thesis by simp
qed

theorem fit_inside_mask_witness:
  "0 < (4::real) \<and> 0 < (3::real)
   \<and> 0 < mask_width \<lparr>mask_type = Rectangle, mask_x = 10, mask_y = 20,
                       mask_width = 2, mask_height = 2\<rparr>
   \<and> 0 < mask_height \<lparr>mask_type = Rectangle, mask_x = 10, mask_y = 20,
                        mask_width = 2, mask_height = 2\<rparr>
   \<and> 10 \<le> pt_x (calculateFitTransform 4 3
         \<lparr>mask_type = Rectangle, mask_x = 10, mask_y = 20, mask_width = 2, mask_height = 2\<rparr>
         (Some Fit))
   \<and> 20 \<le> pt_y (calculateFitTransform 4 3
         \<lparr>mask_type = Rectangle, mask_x = 10, mask_y = 20, mask_width = 2, mask_height = 2\<rparr>
         (Some Fit))
   \<and> pt_y (calculateFitTransform 4 3
         \<lparr>mask_type = Rectangle, mask_x = 10, mask_y = 20, mask_width = 2, mask_height = 2\<rparr>
         (Some Fit))
       + scaledHeight 3 (calculateFitTransform 4 3
         \<lparr>mask_type = Rectangle, mask_x = 10, mask_y = 20, mask_width = 2, mask_height = 2\<rparr>
         (Some Fit)) \<le> 20 + 2"
  using fit_inside_mask [of 4 3
      "\<lparr>mask_type = Rectangle, mask_x = 10, mask_y = 20, mask_width = 2, mask_height = 2\<rparr>"
      "calculateFitTransform 4 3
         \<lparr>mask_type = Rectangle, mask_x = 10, mask_y = 20, mask_width = 2, mask_height = 2\<rparr>
         (Some Fit)"]
  by simp

section \<open>Coordinate conversion and frame selection\<close>

lemma frameScale_pos:
  assumes "0 < frame_width frame" "0 < frame_height frame"
  shows "0 < frameScale frame"
  using assms by (simp add: frameScale_def CANVAS_WIDTH_def CANVAS_HEIGHT_def)

lemma canvasToFrameMask_scaledMask:
  assumes "frameScale frame \<noteq> 0"
  shows "canvasToFrameMask frame (scaledMask frame m) = m"
proof -
  have "mask_type m = Rectangle" by (cases "mask_type m") simp
  with assms show ?thesis
    by (simp add: canvasToFrameMask_def scaledMask_def)
qed

text \<open>
  Claim C7. For a frame with positive dimensions, converting its mask to canvas space
  (\<open>getCurrentMask\<close>) and then applying the inverse of the same scale and offsets
  gives the original mask back. Over the reals the round trip is exact.
\<close>

theorem mask_round_trip:
  assumes "0 < frame_width frame" "0 < frame_height frame" "frame_mask frame = Some m"
  shows "map_option (canvasToFrameMask frame) (getCurrentMask (Some frame)) = Some m"
proof -
  have "frameScale frame \<noteq> 0"
    using frameScale_pos [OF assms(1,2)] by simp
  then show ?thesis
    using assms(3) by (simp add: getCurrentMask_def canvasToFrameMask_scaledMask)
qed

theorem mask_round_trip_witness:
  "0 < frame_width \<lparr>frame_id = ''f1'', frame_name = ''frame'', frame_imageData = '''',
        frame_width = 540, frame_height = 1920,
        frame_mask = Some \<lparr>mask_type = Rectangle, mask_x = 86, mask_y = 235,
                            mask_width = 400, mask_height = 385\<rparr>\<rparr>
   \<and> getCurrentMask (Some \<lparr>frame_id = ''f1'', frame_name = ''frame'', frame_imageData = '''',
        frame_width = 540, frame_height = 1920,
        frame_mask = Some \<lparr>mask_type = Rectangle, mask_x = 86, mask_y = 235,
                            mask_width = 400, mask_height = 385\<rparr>\<rparr>)
       = Some \<lparr>mask_type = Rectangle, mask_x = 356, mask_y = 235,
                mask_width = 400, mask_height = 385\<rparr>
   \<and> map_option (canvasToFrameMask \<lparr>frame_id = ''f1'', frame_name = ''frame'',
        frame_imageData = '''', frame_width = 540, frame_height = 1920,
        frame_mask = Some \<lparr>mask_type = Rectangle, mask_x = 86, mask_y = 235,
                            mask_width = 400, mask_height = 385\<rparr>\<rparr>)
      (getCurrentMask (Some \<lparr>frame_id = ''f1'', frame_name = ''frame'', frame_imageData = '''',
        frame_width = 540, frame_height = 1920,
        frame_mask = Some \<lparr>mask_type = Rectangle, mask_x = 86, mask_y = 235,
                            mask_width = 400, mask_height = 385\<rparr>\<rparr>))
       = Some \<lparr>mask_type = Rectangle, mask_x = 86, mask_y = 235,
                mask_width = 400, mask_height = 385\<rparr>"
  using mask_round_trip [of
      "\<lparr>frame_id = ''f1'', frame_name = ''frame'', frame_imageData = '''',
        frame_width = 540, frame_height = 1920,
        frame_mask = Some \<lparr>mask_type = Rectangle, mask_x = 86, mask_y = 235,
                            mask_width = 400, mask_height = 385\<rparr>\<rparr>"
      "\<lparr>mask_type = Rectangle, mask_x = 86, mask_y = 235,
        mask_width = 400, mask_height = 385\<rparr>"]
  by (simp add: getCurrentMask_def scaledMask_def frameScale_def frameOffsetX_def
      frameOffsetY_def CANVAS_WIDTH_def CANVAS_HEIGHT_def)

text \<open>
  Claim C4, as stated, fails in its last part. Selecting a frame without a mask while
  a photo is selected keeps the previous transform; the transform is not recomputed
  against the default centred region that the renderer clips to. Here the previous
  transform has scale 2 at position (7, 9), and it is still the transform after the
  selection.
\<close>

theorem frame_select_no_mask_counterexample:
  "photoTransform (handleFrameSelect
      [\<lparr>frame_id = ''f1'', frame_name = ''frame'', frame_imageData = '''',
        frame_width = 540, frame_height = 960, frame_mask = None\<rparr>]
      [\<lparr>photo_id = ''p1'', photo_name = ''photo'', photo_imageData = '''',
        photo_width = 4, photo_height = 3\<rparr>]
      ''f1''
      \<lparr>selectedFrameId = None, selectedPhotoId = Some ''p1'',
       photoTransform = \<lparr>pt_x = 7, pt_y = 9, pt_scale = 2, pt_rotation = 0\<rparr>,
       textProperties = DEFAULT_TEXT_PROPERTIES\<rparr>)
     = \<lparr>pt_x = 7, pt_y = 9, pt_scale = 2, pt_rotation = 0\<rparr>
   \<and> photoTransform (handleFrameSelect
      [\<lparr>frame_id = ''f1'', frame_name = ''frame'', frame_imageData = '''',
        frame_width = 540, frame_height = 960, frame_mask = None\<rparr>]
      [\<lparr>photo_id = ''p1'', photo_name = ''photo'', photo_imageData = '''',
        photo_width = 4, photo_height = 3\<rparr>]
      ''f1''
      \<lparr>selectedFrameId = None, selectedPhotoId = Some ''p1'',
       photoTransform = \<lparr>pt_x = 7, pt_y = 9, pt_scale = 2, pt_rotation = 0\<rparr>,
       textProperties = DEFAULT_TEXT_PROPERTIES\<rparr>)
     \<noteq> calculateFitTransform 4 3
         (getMaskInCanvas (Some \<lparr>frame_id = ''f1'', frame_name = ''frame'',
            frame_imageData = '''', frame_width = 540, frame_height = 960,
            frame_mask = None\<rparr>))
         (Some Fill)"
  by (simp add: handleFrameSelect_def getMaskInCanvas_def calculateFitTransform_def
      fitScale_def modeOrDefault_def CANVAS_WIDTH_def CANVAS_HEIGHT_def Let_def)

text \<open>
  Claim C4, amended. When the selected id names a frame of the collection and the
  project's selected photo is in the photo collection, the transition sets the new
  frame id and, in the same step, the transform: if the frame has a mask, the
  transform computed by \<open>calculateFitTransform\<close> in mode \<open>fill\<close> for the mask in
  canvas coordinates; if the frame has no mask, the previous transform, unchanged.
  Everything else in the project is kept.
\<close>

theorem frame_select_transition:
  assumes "List.find (\<lambda>f. frame_id f = frameId) frames = Some frame"
    and "List.find (\<lambda>p. Some (photo_id p) = selectedPhotoId prev) photos = Some photo"
  shows "handleFrameSelect frames photos frameId prev =
           prev \<lparr> selectedFrameId := Some frameId,
                  photoTransform :=
                    (case getCurrentMask (Some frame) of
                       Some canvasMask \<Rightarrow>
                         calculateFitTransform (photo_width photo) (photo_height photo)
                           canvasMask (Some Fill)
                     | None \<Rightarrow> photoTransform prev) \<rparr>"
  using assms
  by (simp add: handleFrameSelect_def getCurrentMask_def split: option.split)

theorem frame_select_transition_witness:
  "handleFrameSelect
      [\<lparr>frame_id = ''f0'', frame_name = ''old'', frame_imageData = '''',
        frame_width = 540, frame_height = 960, frame_mask = None\<rparr>,
       \<lparr>frame_id = ''f1'', frame_name = ''new'', frame_imageData = '''',
        frame_width = 540, frame_height = 1920,
        frame_mask = Some \<lparr>mask_type = Rectangle, mask_x = 86, mask_y = 235,
                            mask_width = 400, mask_height = 385\<rparr>\<rparr>]
      [\<lparr>photo_id = ''p1'', photo_name = ''photo'', photo_imageData = '''',
        photo_width = 800, photo_height = 385\<rparr>]
      ''f1''
      \<lparr>selectedFrameId = Some ''f0'', selectedPhotoId = Some ''p1'',
       photoTransform = \<lparr>pt_x = 7, pt_y = 9, pt_scale = 2, pt_rotation = 30\<rparr>,
       textProperties = DEFAULT_TEXT_PROPERTIES\<rparr>
   = \<lparr>selectedFrameId = Some ''f1'', selectedPhotoId = Some ''p1'',
      photoTransform = \<lparr>pt_x = 156, pt_y = 235, pt_scale = 1, pt_rotation = 0\<rparr>,
      textProperties = DEFAULT_TEXT_PROPERTIES\<rparr>"
  using frame_select_transition [of "''f1''"
      "[\<lparr>frame_id = ''f0'', frame_name = ''old'', frame_imageData = '''',
         frame_width = 540, frame_height = 960, frame_mask = None\<rparr>,
        \<lparr>frame_id = ''f1'', frame_name = ''new'', frame_imageData = '''',
         frame_width = 540, frame_height = 1920,
         frame_mask = Some \<lparr>mask_type = Rectangle, mask_x = 86, mask_y = 235,
                             mask_width = 400, mask_height = 385\<rparr>\<rparr>]"
      "\<lparr>frame_id = ''f1'', frame_name = ''new'', frame_imageData = '''',
        frame_width = 540, frame_height = 1920,
        frame_mask = Some \<lparr>mask_type = Rectangle, mask_x = 86, mask_y = 235,
                            mask_width = 400, mask_height = 385\<rparr>\<rparr>"
      "\<lparr>selectedFrameId = Some ''f0'', selectedPhotoId = Some ''p1'',
        photoTransform = \<lparr>pt_x = 7, pt_y = 9, pt_scale = 2, pt_rotation = 30\<rparr>,
        textProperties = DEFAULT_TEXT_PROPERTIES\<rparr>"
      "[\<lparr>photo_id = ''p1'', photo_name = ''photo'', photo_imageData = '''',
         photo_width = 800, photo_height = 385\<rparr>]"
      "\<lparr>photo_id = ''p1'', photo_name = ''photo'', photo_imageData = '''',
        photo_width = 800, photo_height = 385\<rparr>"]
  by (simp add: getCurrentMask_def scaledMask_def frameScale_def frameOffsetX_def
      frameOffsetY_def CANVAS_WIDTH_def CANVAS_HEIGHT_def calculateFitTransform_def
      fitScale_def modeOrDefault_def Let_def)

section \<open>Saved cards\<close>

lemma pushSavedCard_take:
  assumes "length savedCards \<le> 20"
  shows "pushSavedCard newCard savedCards = take 20 (newCard # savedCards)"
proof (cases "length savedCards = 20")
  case True
  then have "butlast (newCard # savedCards) = take 20 (newCard # savedCards)"
    by (simp add: butlast_conv_take)
  with True show ?thesis by (simp add: pushSavedCard_def)
next
  case False
  with assms show ?thesis by (simp add: pushSavedCard_def)
qed

text \<open>
  Claim C8. If the stored list has at most 20 cards, then after the save-card
  operation, whatever its outcome, it has at most 20 cards; and when the save goes
  through (stage mounted, a frame selected, the image rendered, the stored entry
  readable, the write accepted) the stored list is the new card followed by the old
  cards in their order, cut to the first 20: the new card is in front, and the last
  of 21 is dropped.
\<close>

theorem saved_cards_bounded:
  assumes "length (storedCards entry) \<le> 20"
  shows "length (storedCards
           (handleSaveCard stageMounted selectedFrame dataUrl cardId isoTime writeAccepted
              project entry)) \<le> 20
       \<and> (stageMounted \<and> selectedFrame \<noteq> None \<and> dataUrl = Some url \<and> entry \<noteq> Corrupt
            \<and> writeAccepted \<longrightarrow>
          storedCards
            (handleSaveCard stageMounted selectedFrame dataUrl cardId isoTime writeAccepted
               project entry)
          = take 20 (\<lparr> card_id = cardId, card_timestamp = isoTime, card_imageData = url,
                        card_frameId = selectedFrameId project,
                        card_photoId = selectedPhotoId project \<rparr> # storedCards entry))"
proof (cases entry)
  case Absent
  then show ?thesis
    by (simp add: handleSaveCard_def storedCards_def pushSavedCard_def split: option.split)
next
  case Corrupt
  then show ?thesis
    by (simp add: handleSaveCard_def storedCards_def split: option.split)
next
  case (Cards cs)
  with assms have "length cs \<le> 20" by (simp add: storedCards_def)
  then show ?thesis
    using Cards pushSavedCard_take [of cs]
    by (simp add: handleSaveCard_def storedCards_def split: option.split)
qed

theorem saved_cards_bounded_witness:
  "length (storedCards (Cards (replicate 19
       \<lparr>card_id = ''card-2'', card_timestamp = ''t2'', card_imageData = ''png2'',
        card_frameId = Some ''f1'', card_photoId = None\<rparr>
     @ [\<lparr>card_id = ''card-1'', card_timestamp = ''t1'', card_imageData = ''png1'',
         card_frameId = Some ''f1'', card_photoId = None\<rparr>]))) \<le> 20
   \<and> storedCards (handleSaveCard True
        (Some \<lparr>frame_id = ''f1'', frame_name = ''frame'', frame_imageData = '''',
               frame_width = 540, frame_height = 960, frame_mask = None\<rparr>)
        (Some ''png3'') ''card-3'' ''t3'' True
        \<lparr>selectedFrameId = Some ''f1'', selectedPhotoId = Some ''p1'',
         photoTransform = DEFAULT_PHOTO_TRANSFORM, textProperties = DEFAULT_TEXT_PROPERTIES\<rparr>
        (Cards (replicate 19
           \<lparr>card_id = ''card-2'', card_timestamp = ''t2'', card_imageData = ''png2'',
            card_frameId = Some ''f1'', card_photoId = None\<rparr>
         @ [\<lparr>card_id = ''card-1'', card_timestamp = ''t1'', card_imageData = ''png1'',
             card_frameId = Some ''f1'', card_photoId = None\<rparr>])))
     = \<lparr>card_id = ''card-3'', card_timestamp = ''t3'', card_imageData = ''png3'',
        card_frameId = Some ''f1'', card_photoId = Some ''p1''\<rparr>
       # replicate 19
           \<lparr>card_id = ''card-2'', card_timestamp = ''t2'', card_imageData = ''png2'',
            card_frameId = Some ''f1'', card_photoId = None\<rparr>"
  using saved_cards_bounded [where
      entry = "Cards (replicate 19
           \<lparr>card_id = ''card-2'', card_timestamp = ''t2'', card_imageData = ''png2'',
            card_frameId = Some ''f1'', card_photoId = None\<rparr>
         @ [\<lparr>card_id = ''card-1'', card_timestamp = ''t1'', card_imageData = ''png1'',
             card_frameId = Some ''f1'', card_photoId = None\<rparr>])"
      and stageMounted = True
      and selectedFrame = "Some \<lparr>frame_id = ''f1'', frame_name = ''frame'',
             frame_imageData = '''', frame_width = 540, frame_height = 960, frame_mask = None\<rparr>"
      and dataUrl = "Some ''png3''" and url = "''png3''"
      and cardId = "''card-3''" and isoTime = "''t3''" and writeAccepted = True
      and project = "\<lparr>selectedFrameId = Some ''f1'', selectedPhotoId = Some ''p1'',
         photoTransform = DEFAULT_PHOTO_TRANSFORM, textProperties = DEFAULT_TEXT_PROPERTIES\<rparr>"]
  by (simp add: storedCards_def)

section \<open>Persistence reads\<close>

text \<open>
  Claim C9. Each of the three reads returns a value and never an exception; when the
  read fails or finds no stored value, \<open>loadFrames\<close> and \<open>loadPhotos\<close> return the
  empty collection and \<open>loadProject\<close> returns the default project (no selections,
  the default transform, the default text properties).
\<close>

theorem load_never_throws:
  "\<not> isl (loadFrames getItem parseFrames)
   \<and> \<not> isl (loadPhotos getItem parsePhotos)
   \<and> \<not> isl (loadProject getItem parseProject)
   \<and> (readYieldsNothing getItem parseFrames STORAGE_KEYS_FRAMES
        \<longrightarrow> loadFrames getItem parseFrames = Inr [])
   \<and> (readYieldsNothing getItem parsePhotos STORAGE_KEYS_PHOTOS
        \<longrightarrow> loadPhotos getItem parsePhotos = Inr [])
   \<and> (readYieldsNothing getItem parseProject STORAGE_KEYS_PROJECT
        \<longrightarrow> loadProject getItem parseProject =
              Inr \<lparr> selectedFrameId = None, selectedPhotoId = None,
                    photoTransform = \<lparr> pt_x = 0, pt_y = 0, pt_scale = 1, pt_rotation = 0 \<rparr>,
                    textProperties =
                      \<lparr> tp_content = ''Happy Birthday!'', tp_fontFamily = ''Dancing Script'',
                        tp_fontSize = 48, tp_color = ''#FFD700'', tp_x = 540, tp_y = 200,
                        tp_outlineColor = ''#8B4513'', tp_outlineWidth = 2,
                        tp_shadowEnabled = True, tp_visible = False \<rparr> \<rparr>)"
proof -
  have f1: "\<not> isl (loadFrames getItem parseFrames)"
    by (simp add: loadFrames_def split: sum.split option.split)
  have f2: "\<not> isl (loadPhotos getItem parsePhotos)"
    by (simp add: loadPhotos_def split: sum.split option.split)
  have f3: "\<not> isl (loadProject getItem parseProject)"
    by (simp add: loadProject_def split: sum.split option.split)
  have g1: "loadFrames getItem parseFrames = Inr []"
    if "readYieldsNothing getItem parseFrames STORAGE_KEYS_FRAMES"
    using that
    by (auto simp: loadFrames_def readYieldsNothing_def isl_def split: sum.splits option.splits)
  have g2: "loadPhotos getItem parsePhotos = Inr []"
    if "readYieldsNothing getItem parsePhotos STORAGE_KEYS_PHOTOS"
    using that
    by (auto simp: loadPhotos_def readYieldsNothing_def isl_def split: sum.splits option.splits)
  have g3: "loadProject getItem parseProject =
              Inr \<lparr> selectedFrameId = None, selectedPhotoId = None,
                    photoTransform = DEFAULT_PHOTO_TRANSFORM,
                    textProperties = DEFAULT_TEXT_PROPERTIES \<rparr>"
    if "readYieldsNothing getItem parseProject STORAGE_KEYS_PROJECT"
    using that
    by (auto simp: loadProject_def readYieldsNothing_def isl_def
        split: sum.splits option.splits)
  from f1 f2 f3 g1 g2 g3 show ?thesis
    by (simp add: DEFAULT_PHOTO_TRANSFORM_def DEFAULT_TEXT_PROPERTIES_def)
qed

theorem load_never_throws_witness:
  "readYieldsNothing
     (\<lambda>k. if k = ''birthday-card-frames'' then Inr (Some ''{'')
          else if k = ''birthday-card-photos'' then Inl StorageException
          else Inr None)
     (\<lambda>s. (Inl JSONSyntaxError :: exn + FrameAsset list)) STORAGE_KEYS_FRAMES
   \<and> readYieldsNothing
     (\<lambda>k. if k = ''birthday-card-frames'' then Inr (Some ''{'')
          else if k = ''birthday-card-photos'' then Inl StorageException
          else Inr None)
     (\<lambda>s. (Inl JSONSyntaxError :: exn + PhotoAsset list)) STORAGE_KEYS_PHOTOS
   \<and> readYieldsNothing
     (\<lambda>k. if k = ''birthday-card-frames'' then Inr (Some ''{'')
          else if k = ''birthday-card-photos'' then Inl StorageException
          else Inr None)
     (\<lambda>s. (Inl JSONSyntaxError :: exn + CardProject)) STORAGE_KEYS_PROJECT
   \<and> loadFrames
     (\<lambda>k. if k = ''birthday-card-frames'' then Inr (Some ''{'')
          else if k = ''birthday-card-photos'' then Inl StorageException
          else Inr None)
     (\<lambda>s. Inl JSONSyntaxError) = Inr []
   \<and> loadPhotos
     (\<lambda>k. if k = ''birthday-card-frames'' then Inr (Some ''{'')
          else if k = ''birthday-card-photos'' then Inl StorageException
          else Inr None)
     (\<lambda>s. Inl JSONSyntaxError) = Inr []
   \<and> loadProject
     (\<lambda>k. if k = ''birthday-card-frames'' then Inr (Some ''{'')
          else if k = ''birthday-card-photos'' then Inl StorageException
          else Inr None)
     (\<lambda>s. Inl JSONSyntaxError)
     = Inr \<lparr> selectedFrameId = None, selectedPhotoId = None,
             photoTransform = \<lparr> pt_x = 0, pt_y = 0, pt_scale = 1, pt_rotation = 0 \<rparr>,
             textProperties = DEFAULT_TEXT_PROPERTIES \<rparr>"
  using load_never_throws [where
      getItem = "\<lambda>k. if k = ''birthday-card-frames'' then Inr (Some ''{'')
          else if k = ''birthday-card-photos'' then Inl StorageException
          else Inr None"
      and parseFrames = "\<lambda>s. Inl JSONSyntaxError"
      and parsePhotos = "\<lambda>s. Inl JSONSyntaxError"
      and parseProject = "\<lambda>s. Inl JSONSyntaxError"]
  by (simp add: readYieldsNothing_def STORAGE_KEYS_FRAMES_def STORAGE_KEYS_PHOTOS_def
      STORAGE_KEYS_PROJECT_def DEFAULT_TEXT_PROPERTIES_def)

section \<open>Mask auto-detection: what the scan computes\<close>

lemma scanRow_fold:
  "scanRow img y x bb = fold (\<lambda>x. scanPixel img x y) [x..<img_width img] bb"
proof (induction img y x bb rule: scanRow.induct)
  case (1 img y x bb)
  show ?case
  proof (cases "x < img_width img")
    case True
    then have "[x..<img_width img] = x # [x + 1..<img_width img]"
      by (simp add: upt_conv_Cons)
    with True 1 show ?thesis
      by (subst scanRow.simps) simp
  next
    case False
    then show ?thesis by (subst scanRow.simps) simp
  qed
qed

lemma scanRows_fold:
  "scanRows img y bb = fold (\<lambda>y. scanRow img y 0) [y..<img_height img] bb"
proof (induction img y bb rule: scanRows.induct)
  case (1 img y bb)
  show ?case
  proof (cases "y < img_height img")
    case True
    then have "[y..<img_height img] = y # [y + 1..<img_height img]"
      by (simp add: upt_conv_Cons)
    with True 1 show ?thesis
      by (subst scanRows.simps) simp
  next
    case False
    then show ?thesis by (subst scanRows.simps) simp
  qed
qed

lemma fold_scanPixel:
  "fold (\<lambda>x. scanPixel img x y) xs bb
     = fold growBox (map (\<lambda>x. (x, y)) (filter (\<lambda>x. isWindowPixel img x y) xs)) bb"
  by (induction xs arbitrary: bb) (simp_all add: scanPixel_def)

lemma fold_rows:
  "fold (\<lambda>y. fold growBox (row y)) ys bb = fold growBox (concat (map row ys)) bb"
  by (induction ys arbitrary: bb) simp_all

lemma scanImage_fold:
  "scanImage img =
     fold growBox (windowPixels img)
       \<lparr> minX = img_width img, minY = img_height img, maxX = 0, maxY = 0,
         foundTransparent = False \<rparr>"
proof -
  have "(\<lambda>y. scanRow img y 0)
          = (\<lambda>y. fold growBox (map (\<lambda>x. (x, y))
                     (filter (\<lambda>x. isWindowPixel img x y) [0..<img_width img])))"
    by (rule ext)+ (simp add: scanRow_fold fold_scanPixel)
  then show ?thesis
    by (simp add: scanImage_def scanRows_fold windowPixels_def fold_rows)
qed

lemma set_windowPixels:
  "set (windowPixels img)
     = {(x, y). x < img_width img \<and> y < img_height img \<and> isWindowPixel img x y}"
  by (auto simp: windowPixels_def)

lemma growBox_sel:
  "minX (growBox p bb) = min (minX bb) (fst p)"
  "minY (growBox p bb) = min (minY bb) (snd p)"
  "maxX (growBox p bb) = max (maxX bb) (fst p)"
  "maxY (growBox p bb) = max (maxY bb) (snd p)"
  "foundTransparent (growBox p bb)"
  by (simp_all add: growBox_def)

lemma fold_growBox_found:
  "foundTransparent (fold growBox ps bb) = (foundTransparent bb \<or> ps \<noteq> [])"
  by (induction ps arbitrary: bb) (simp_all add: growBox_sel)

lemma fold_growBox_minX_init:
  "minX (fold growBox ps bb) \<le> minX bb"
proof (induction ps arbitrary: bb)
  case Nil
  show ?case by simp
next
  case (Cons q ps)
  from Cons [of "growBox q bb"] show ?case by (simp add: growBox_sel)
qed

lemma fold_growBox_minX_bound:
  "p \<in> set ps \<Longrightarrow> minX (fold growBox ps bb) \<le> fst p"
proof (induction ps arbitrary: bb)
  case Nil
  then show ?case by simp
next
  case (Cons q ps)
  show ?case
  proof (cases "p = q")
    case True
    with fold_growBox_minX_init [where ps = ps and bb = "growBox q bb"] show ?thesis
      by (simp add: growBox_sel)
  next
    case False
    with Cons.prems have "p \<in> set ps" by simp
    from Cons.IH [OF this, of "growBox q bb"] show ?thesis by simp
  qed
qed

lemma fold_growBox_minX_attained:
  "minX (fold growBox ps bb) = minX bb \<or> minX (fold growBox ps bb) \<in> fst ` set ps"
proof (induction ps arbitrary: bb)
  case Nil
  show ?case by simp
next
  case (Cons q ps)
  from Cons [of "growBox q bb"] show ?case
    by (auto simp: growBox_sel min_def split: if_splits)
qed

lemma fold_growBox_maxX_init:
  "maxX bb \<le> maxX (fold growBox ps bb)"
proof (induction ps arbitrary: bb)
  case Nil
  show ?case by simp
next
  case (Cons q ps)
  from Cons [of "growBox q bb"] show ?case by (simp add: growBox_sel)
qed

lemma fold_growBox_maxX_bound:
  "p \<in> set ps \<Longrightarrow> fst p \<le> maxX (fold growBox ps bb)"
proof (induction ps arbitrary: bb)
  case Nil
  then show ?case by simp
next
  case (Cons q ps)
  show ?case
  proof (cases "p = q")
    case True
    with fold_growBox_maxX_init [where ps = ps and bb = "growBox q bb"] show ?thesis
      by (simp add: growBox_sel)
  next
    case False
    with Cons.prems have "p \<in> set ps" by simp
    from Cons.IH [OF this, of "growBox q bb"] show ?thesis by simp
  qed
qed

lemma fold_growBox_maxX_attained:
  "maxX (fold growBox ps bb) = maxX bb \<or> maxX (fold growBox ps bb) \<in> fst ` set ps"
proof (induction ps arbitrary: bb)
  case Nil
  show ?case by simp
next
  case (Cons q ps)
  from Cons [of "growBox q bb"] show ?case
    by (auto simp: growBox_sel max_def split: if_splits)
qed

lemma fold_growBox_minY_init:
  "minY (fold growBox ps bb) \<le> minY bb"
proof (induction ps arbitrary: bb)
  case Nil
  show ?case by simp
next
  case (Cons q ps)
  from Cons [of "growBox q bb"] show ?case by (simp add: growBox_sel)
qed

lemma fold_growBox_minY_bound:
  "p \<in> set ps \<Longrightarrow> minY (fold growBox ps bb) \<le> snd p"
proof (induction ps arbitrary: bb)
  case Nil
  then show ?case by simp
next
  case (Cons q ps)
  show ?case
  proof (cases "p = q")
    case True
    with fold_growBox_minY_init [where ps = ps and bb = "growBox q bb"] show ?thesis
      by (simp add: growBox_sel)
  next
    case False
    with Cons.prems have "p \<in> set ps" by simp
    from Cons.IH [OF this, of "growBox q bb"] show ?thesis by simp
  qed
qed

lemma fold_growBox_minY_attained:
  "minY (fold growBox ps bb) = minY bb \<or> minY (fold growBox ps bb) \<in> snd ` set ps"
proof (induction ps arbitrary: bb)
  case Nil
  show ?case by simp
next
  case (Cons q ps)
  from Cons [of "growBox q bb"] show ?case
    by (auto simp: growBox_sel min_def split: if_splits)
qed

lemma fold_growBox_maxY_init:
  "maxY bb \<le> maxY (fold growBox ps bb)"
proof (induction ps arbitrary: bb)
  case Nil
  show ?case by simp
next
  case (Cons q ps)
  from Cons [of "growBox q bb"] show ?case by (simp add: growBox_sel)
qed

lemma fold_growBox_maxY_bound:
  "p \<in> set ps \<Longrightarrow> snd p \<le> maxY (fold growBox ps bb)"
proof (induction ps arbitrary: bb)
  case Nil
  then show ?case by simp
next
  case (Cons q ps)
  show ?case
  proof (cases "p = q")
    case True
    with fold_growBox_maxY_init [where ps = ps and bb = "growBox q bb"] show ?thesis
      by (simp add: growBox_sel)
  next
    case False
    with Cons.prems have "p \<in> set ps" by simp
    from Cons.IH [OF this, of "growBox q bb"] show ?thesis by simp
  qed
qed

lemma fold_growBox_maxY_attained:
  "maxY (fold growBox ps bb) = maxY bb \<or> maxY (fold growBox ps bb) \<in> snd ` set ps"
proof (induction ps arbitrary: bb)
  case Nil
  show ?case by simp
next
  case (Cons q ps)
  from Cons [of "growBox q bb"] show ?case
    by (auto simp: growBox_sel max_def split: if_splits)
qed

lemma scan_found:
  "foundTransparent (scanImage img) \<longleftrightarrow> windowPixels img \<noteq> []"
  by (simp add: scanImage_fold fold_growBox_found)

lemma scan_bounds:
  assumes "p \<in> set (windowPixels img)"
  shows "minX (scanImage img) \<le> fst p" "fst p \<le> maxX (scanImage img)"
    and "minY (scanImage img) \<le> snd p" "snd p \<le> maxY (scanImage img)"
  using assms
  by (simp_all add: scanImage_fold fold_growBox_minX_bound fold_growBox_maxX_bound
      fold_growBox_minY_bound fold_growBox_maxY_bound)

lemma windowPixels_inside:
  assumes "p \<in> set (windowPixels img)"
  shows "fst p < img_width img" "snd p < img_height img"
  using assms by (auto simp: set_windowPixels)

lemma scan_attained:
  assumes "windowPixels img \<noteq> []"
  shows "minX (scanImage img) \<in> fst ` set (windowPixels img)"
    and "maxX (scanImage img) \<in> fst ` set (windowPixels img)"
    and "minY (scanImage img) \<in> snd ` set (windowPixels img)"
    and "maxY (scanImage img) \<in> snd ` set (windowPixels img)"
proof -
  let ?init = "\<lparr> minX = img_width img, minY = img_height img, maxX = 0, maxY = 0,
                 foundTransparent = False \<rparr>"
  from assms obtain p where p: "p \<in> set (windowPixels img)"
    by (cases "windowPixels img") auto
  note inside = windowPixels_inside [OF p] and bounds = scan_bounds [OF p]
  show "minX (scanImage img) \<in> fst ` set (windowPixels img)"
    using fold_growBox_minX_attained [of "windowPixels img" ?init] inside(1) bounds(1)
    by (auto simp: scanImage_fold)
  show "minY (scanImage img) \<in> snd ` set (windowPixels img)"
    using fold_growBox_minY_attained [of "windowPixels img" ?init] inside(2) bounds(3)
    by (auto simp: scanImage_fold)
  show "maxX (scanImage img) \<in> fst ` set (windowPixels img)"
  proof (cases "maxX (scanImage img) = 0")
    case True
    with bounds(2) have "fst p = maxX (scanImage img)" by simp
    with p show ?thesis by (metis imageI)
  next
    case False
    then show ?thesis
      using fold_growBox_maxX_attained [of "windowPixels img" ?init]
      by (auto simp: scanImage_fold)
  qed
  show "maxY (scanImage img) \<in> snd ` set (windowPixels img)"
  proof (cases "maxY (scanImage img) = 0")
    case True
    with bounds(4) have "snd p = maxY (scanImage img)" by simp
    with p show ?thesis by (metis imageI)
  next
    case False
    then show ?thesis
      using fold_growBox_maxY_attained [of "windowPixels img" ?init]
      by (auto simp: scanImage_fold)
  qed
qed

lemma scan_span_x:
  assumes "windowPixels img \<noteq> []"
    and "\<forall>p\<in>set (windowPixels img). \<forall>q\<in>set (windowPixels img). fst q < fst p + 50"
  shows "real (maxX (scanImage img)) - real (minX (scanImage img)) < 50"
proof -
  from scan_attained(1,2) [OF assms(1)] obtain p q
    where "p \<in> set (windowPixels img)" "minX (scanImage img) = fst p"
      and "q \<in> set (windowPixels img)" "maxX (scanImage img) = fst q"
    by auto
  with assms(2) have "maxX (scanImage img) < minX (scanImage img) + 50" by simp
  then show ?thesis by linarith
qed

lemma scan_span_y:
  assumes "windowPixels img \<noteq> []"
    and "\<forall>p\<in>set (windowPixels img). \<forall>q\<in>set (windowPixels img). snd q < snd p + 50"
  shows "real (maxY (scanImage img)) - real (minY (scanImage img)) < 50"
proof -
  from scan_attained(3,4) [OF assms(1)] obtain p q
    where "p \<in> set (windowPixels img)" "minY (scanImage img) = snd p"
      and "q \<in> set (windowPixels img)" "maxY (scanImage img) = snd q"
    by auto
  with assms(2) have "maxY (scanImage img) < minY (scanImage img) + 50" by simp
  then show ?thesis by linarith
qed

text \<open>
  Claim C6. If the image has no window pixel, or its window pixels span fewer than
  50 columns, or fewer than 50 rows (any two of them are less than 50 apart on that
  axis), then detection returns the fallback rectangle
  \<open>{x: 0.15 W, y: 0.15 H, width: 0.7 W, height: 0.5 H}\<close> for the image's pixel
  dimensions \<open>W\<close> and \<open>H\<close>.
\<close>

theorem detect_fallback:
  assumes "windowPixels img = []
         \<or> (\<forall>p\<in>set (windowPixels img). \<forall>q\<in>set (windowPixels img). fst q < fst p + 50)
         \<or> (\<forall>p\<in>set (windowPixels img). \<forall>q\<in>set (windowPixels img). snd q < snd p + 50)"
  shows "detectTransparentRegion (Pixels img) =
           Some \<lparr> mask_type = Rectangle,
                  mask_x = 0.15 * real (img_width img),
                  mask_y = 0.15 * real (img_height img),
                  mask_width = 0.7 * real (img_width img),
                  mask_height = 0.5 * real (img_height img) \<rparr>"
proof -
  have "\<not> foundTransparent (scanImage img)
        \<or> real (maxX (scanImage img)) - real (minX (scanImage img)) < 50
        \<or> real (maxY (scanImage img)) - real (minY (scanImage img)) < 50"
  proof (cases "windowPixels img = []")
    case True
    then show ?thesis by (simp add: scan_found)
  next
    case False
    with assms scan_span_x [OF False] scan_span_y [OF False] show ?thesis by blast
  qed
  then have "detectInPixels img = fallbackMask img"
    by (auto simp: detectInPixels_def Let_def)
  then show ?thesis
    by (simp add: detectTransparentRegion_def fallbackMask_def Let_def)
qed

theorem detect_fallback_witness:
  "windowPixels \<lparr>img_width = 2, img_height = 2,
       img_data = [128, 128, 128, 255, 128, 128, 128, 255,
                   128, 128, 128, 255, 128, 128, 128, 255]\<rparr> = []
   \<and> detectTransparentRegion (Pixels \<lparr>img_width = 2, img_height = 2,
       img_data = [128, 128, 128, 255, 128, 128, 128, 255,
                   128, 128, 128, 255, 128, 128, 128, 255]\<rparr>)
     = Some \<lparr>mask_type = Rectangle, mask_x = 0.3, mask_y = 0.3,
              mask_width = 1.4, mask_height = 1\<rparr>
   \<and> windowPixels \<lparr>img_width = 2, img_height = 2,
       img_data = [128, 128, 128, 255, 0, 0, 0, 0,
                   128, 128, 128, 255, 250, 250, 250, 255]\<rparr> = [(1, 0), (1, 1)]
   \<and> detectTransparentRegion (Pixels \<lparr>img_width = 2, img_height = 2,
       img_data = [128, 128, 128, 255, 0, 0, 0, 0,
                   128, 128, 128, 255, 250, 250, 250, 255]\<rparr>)
     = Some \<lparr>mask_type = Rectangle, mask_x = 0.3, mask_y = 0.3,
              mask_width = 1.4, mask_height = 1\<rparr>"
proof -
  have gray: "windowPixels \<lparr>img_width = 2, img_height = 2,
       img_data = [128, 128, 128, 255, 128, 128, 128, 255,
                   128, 128, 128, 255, 128, 128, 128, 255]\<rparr> = []"
    by code_simp
  have hole: "windowPixels \<lparr>img_width = 2, img_height = 2,
       img_data = [128, 128, 128, 255, 0, 0, 0, 0,
                   128, 128, 128, 255, 250, 250, 250, 255]\<rparr> = [(1, 0), (1, 1)]"
    by code_simp
  show ?thesis
    using gray hole
      detect_fallback [of "\<lparr>img_width = 2, img_height = 2,
         img_data = [128, 128, 128, 255, 128, 128, 128, 255,
                     128, 128, 128, 255, 128, 128, 128, 255]\<rparr>"]
      detect_fallback [of "\<lparr>img_width = 2, img_height = 2,
         img_data = [128, 128, 128, 255, 0, 0, 0, 0,
                     128, 128, 128, 255, 250, 250, 250, 255]\<rparr>"]
    by simp
qed

section \<open>Mask auto-detection: the padded box\<close>

text \<open>
  When the scan finds a box that is large enough, the second argument of each
  \<open>Math.min\<close> is the smaller one, because \<open>maxX < canvas.width\<close> and
  \<open>maxY < canvas.height\<close>: the returned width is \<open>maxX - minX + 10\<close> and the returned
  height is \<open>maxY - minY + 10\<close>, whatever the image's dimensions are.
\<close>

lemma detectInPixels_box:
  assumes "windowPixels img \<noteq> []"
    and "\<not> real (maxX (scanImage img)) - real (minX (scanImage img)) < 50"
    and "\<not> real (maxY (scanImage img)) - real (minY (scanImage img)) < 50"
  shows "detectInPixels img =
           \<lparr> mask_type = Rectangle,
             mask_x = max 0 (real (minX (scanImage img)) - 5),
             mask_y = max 0 (real (minY (scanImage img)) - 5),
             mask_width = real (maxX (scanImage img)) - real (minX (scanImage img)) + 10,
             mask_height = real (maxY (scanImage img)) - real (minY (scanImage img)) + 10 \<rparr>"
proof -
  from scan_attained(2,4) [OF assms(1)] obtain p q
    where "p \<in> set (windowPixels img)" "maxX (scanImage img) = fst p"
      and "q \<in> set (windowPixels img)" "maxY (scanImage img) = snd q"
    by auto
  then have "maxX (scanImage img) < img_width img" "maxY (scanImage img) < img_height img"
    using windowPixels_inside by simp_all
  then have "real (maxX (scanImage img)) \<le> real (img_width img)"
    and "real (maxY (scanImage img)) \<le> real (img_height img)"
    by simp_all
  with assms show ?thesis
    by (simp add: detectInPixels_def scan_found Let_def min_def)
qed

lemma byteAt_replicate:
  "byteAt (replicate n b) i = (if i < n then Some b else None)"
  by (simp add: byteAt_def)

lemma transparent_square_window:
  assumes "x < 60" "y < 60"
  shows "isWindowPixel \<lparr>img_width = 60, img_height = 60, img_data = replicate 14400 0\<rparr> x y"
proof -
  from assms have "(y * 60 + x) * 4 + 3 < 14400" by simp
  then show ?thesis
    by (simp add: isWindowPixel_def byteAt_replicate lessThanByte_def Let_def)
qed

text \<open>
  Claim C5, at a fully transparent image of 60 by 60 pixels (every byte 0). The
  window's bounding box is the whole image, columns and rows 0 to 59. The returned
  mask starts at (0, 0) and is 69 wide and 69 high: it reaches 9 pixels beyond the
  right and the bottom edge of the image, so it is not clamped to the image bounds.
\<close>

theorem detect_transparent_image_overflows:
  "detectTransparentRegion
     (Pixels \<lparr>img_width = 60, img_height = 60, img_data = replicate 14400 0\<rparr>)
   = Some \<lparr>mask_type = Rectangle, mask_x = 0, mask_y = 0, mask_width = 69, mask_height = 69\<rparr>"
proof -
  let ?img = "\<lparr>img_width = 60, img_height = 60, img_data = replicate 14400 0\<rparr>"
  have first: "(0, 0) \<in> set (windowPixels ?img)"
    and last: "(59, 59) \<in> set (windowPixels ?img)"
    using transparent_square_window [of 0 0] transparent_square_window [of 59 59]
    by (simp_all add: set_windowPixels)
  then have ne: "windowPixels ?img \<noteq> []" by auto
  have "minX (scanImage ?img) \<le> 0" "minY (scanImage ?img) \<le> 0"
    using scan_bounds(1,3) [OF first] by simp_all
  then have lo: "minX (scanImage ?img) = 0" "minY (scanImage ?img) = 0" by simp_all
  have ge: "59 \<le> maxX (scanImage ?img)" "59 \<le> maxY (scanImage ?img)"
    using scan_bounds(2,4) [OF last] by simp_all
  from scan_attained(2,4) [OF ne] obtain p q
    where "p \<in> set (windowPixels ?img)" "maxX (scanImage ?img) = fst p"
      and "q \<in> set (windowPixels ?img)" "maxY (scanImage ?img) = snd q"
    by auto
  then have "maxX (scanImage ?img) < 60" "maxY (scanImage ?img) < 60"
    using windowPixels_inside [of p ?img] windowPixels_inside [of q ?img] by simp_all
  with ge have hi: "maxX (scanImage ?img) = 59" "maxY (scanImage ?img) = 59" by simp_all
  have "detectInPixels ?img =
          \<lparr>mask_type = Rectangle, mask_x = 0, mask_y = 0, mask_width = 69, mask_height = 69\<rparr>"
    using detectInPixels_box [OF ne] lo hi by simp
  then show ?thesis by (simp add: detectTransparentRegion_def)
qed

section \<open>Mask auto-detection: a rectangular window\<close>

lemma detect_rect_window:
  assumes win: "\<And>x y. x < img_width img \<Longrightarrow> y < img_height img \<Longrightarrow>
                  isWindowPixel img x y \<longleftrightarrow> x0 \<le> x \<and> x \<le> x1 \<and> y0 \<le> y \<and> y \<le> y1"
    and inside: "x1 < img_width img" "y1 < img_height img"
    and large: "x0 + 50 \<le> x1" "y0 + 50 \<le> y1"
  shows "detectInPixels img =
           \<lparr> mask_type = Rectangle,
             mask_x = max 0 (real x0 - 5), mask_y = max 0 (real y0 - 5),
             mask_width = real x1 - real x0 + 10, mask_height = real y1 - real y0 + 10 \<rparr>"
proof -
  have mem: "p \<in> set (windowPixels img)
               \<longleftrightarrow> x0 \<le> fst p \<and> fst p \<le> x1 \<and> y0 \<le> snd p \<and> snd p \<le> y1" for p
    using win [of "fst p" "snd p"] inside
    by (cases p) (auto simp: set_windowPixels)
  have first: "(x0, y0) \<in> set (windowPixels img)" and last: "(x1, y1) \<in> set (windowPixels img)"
    using large by (simp_all add: mem)
  then have ne: "windowPixels img \<noteq> []" by auto
  from scan_attained [OF ne] obtain a b c d
    where "a \<in> set (windowPixels img)" "minX (scanImage img) = fst a"
      and "b \<in> set (windowPixels img)" "maxX (scanImage img) = fst b"
      and "c \<in> set (windowPixels img)" "minY (scanImage img) = snd c"
      and "d \<in> set (windowPixels img)" "maxY (scanImage img) = snd d"
    by auto
  then have "x0 \<le> minX (scanImage img)" "maxX (scanImage img) \<le> x1"
    and "y0 \<le> minY (scanImage img)" "maxY (scanImage img) \<le> y1"
    by (simp_all add: mem)
  with scan_bounds [OF first] scan_bounds [OF last]
  have eq: "minX (scanImage img) = x0" "maxX (scanImage img) = x1"
    "minY (scanImage img) = y0" "maxY (scanImage img) = y1"
    by simp_all
  from large have "\<not> real x1 - real x0 < 50" "\<not> real y1 - real y0 < 50"
    by linarith+
  with detectInPixels_box [OF ne] eq show ?thesis by simp
qed

lemma concat_fours_length:
  assumes "\<And>i. length (f i) = 4"
  shows "length (concat (map f [0..<n])) = 4 * n"
  by (induction n) (simp_all add: assms)

lemma concat_fours_nth:
  assumes len: "\<And>i. length (f i) = 4" and "i < n" "k < 4"
  shows "concat (map f [0..<n]) ! (i * 4 + k) = f i ! k"
  using assms(2)
proof (induction n)
  case 0
  then show ?case by simp
next
  case (Suc n)
  show ?case
  proof (cases "i < n")
    case True
    then have "i * 4 + k < 4 * n" using \<open>k < 4\<close> by simp
    with Suc.IH [OF True] show ?thesis
      by (simp add: nth_append concat_fours_length [OF len])
  next
    case False
    with Suc.prems have "i = n" by simp
    then show ?thesis
      by (simp add: nth_append concat_fours_length [OF len])
  qed
qed

lemma squareHolePixel_length: "length (squareHolePixel i) = 4"
  by (simp add: squareHolePixel_def)

lemma squareHole_byteAt:
  assumes "i < 160000" "k < 4"
  shows "byteAt (img_data squareHoleImage) (i * 4 + k) = Some (squareHolePixel i ! k)"
proof -
  have "i * 4 + k < 4 * 160000" using assms by simp
  then show ?thesis
    using concat_fours_nth [of squareHolePixel i 160000 k] assms
    by (simp add: byteAt_def squareHoleImage_def squareHolePixel_length
        concat_fours_length [of squareHolePixel])
qed

lemma squareHole_window:
  assumes "x < 400" "y < 400"
  shows "isWindowPixel squareHoleImage x y \<longleftrightarrow> 100 \<le> x \<and> x \<le> 299 \<and> 100 \<le> y \<and> y \<le> 299"
proof -
  let ?i = "y * 400 + x"
  have i: "?i < 160000" using assms by simp
  have md: "?i mod 400 = x" "?i div 400 = y" using assms by simp_all
  have b: "byteAt (img_data squareHoleImage) (?i * 4) = Some (squareHolePixel ?i ! 0)"
    "byteAt (img_data squareHoleImage) (?i * 4 + 1) = Some (squareHolePixel ?i ! 1)"
    "byteAt (img_data squareHoleImage) (?i * 4 + 2) = Some (squareHolePixel ?i ! 2)"
    "byteAt (img_data squareHoleImage) (?i * 4 + 3) = Some (squareHolePixel ?i ! 3)"
    using squareHole_byteAt [OF i, of 0] squareHole_byteAt [OF i, of 1]
      squareHole_byteAt [OF i, of 2] squareHole_byteAt [OF i, of 3]
    by simp_all
  have w: "img_width squareHoleImage = 400" by (simp add: squareHoleImage_def)
  show ?thesis
    unfolding isWindowPixel_def Let_def w b
    using assms
    by (auto simp: squareHolePixel_def md lessThanByte_def greaterThanByte_def)
qed

lemma detect_square_hole:
  "detectTransparentRegion (Pixels squareHoleImage)
   = Some \<lparr>mask_type = Rectangle, mask_x = 95, mask_y = 95,
            mask_width = 209, mask_height = 209\<rparr>"
proof -
  have dims: "img_width squareHoleImage = 400" "img_height squareHoleImage = 400"
    by (simp_all add: squareHoleImage_def)
  have "detectInPixels squareHoleImage =
          \<lparr> mask_type = Rectangle,
            mask_x = max 0 (real 100 - 5), mask_y = max 0 (real 100 - 5),
            mask_width = real 299 - real 100 + 10, mask_height = real 299 - real 100 + 10 \<rparr>"
  proof (rule detect_rect_window)
    fix x y
    assume "x < img_width squareHoleImage" "y < img_height squareHoleImage"
    then show "isWindowPixel squareHoleImage x y
                 \<longleftrightarrow> 100 \<le> x \<and> x \<le> 299 \<and> 100 \<le> y \<and> y \<le> 299"
      using squareHole_window [of x y] by (simp add: dims)
  qed (simp_all add: dims)
  then show ?thesis by (simp add: detectTransparentRegion_def)
qed

end
